theory Spec2Isabelle
  imports Complex_Main "HOL-Library.Multiset"
begin

section \<open>Accuracy metrics of \<open>pyrec.accuracy\<close>: RMSE, MAE and FCP\<close>

text \<open>
  The module \<open>src/pyrec/accuracy.py\<close> holds three functions, \<open>rmse\<close>, \<open>mae\<close> and
  \<open>fcp\<close>, each reducing a list of prediction tuples to one number.

  Modelling decisions:
  \<^item> a prediction is the 5-tuple \<open>(uid, iid, true_r, est, details)\<close> the source unpacks;
    user, item and details are type parameters, since the code only compares users
    for equality (as dictionary keys) and never reads the other two;
  \<^item> ratings are real numbers, as the data model of the specification has them. Python
    computes with binary floating point, which is not modelled: \<open>float\<close> is the
    identity, nothing is rounded, and there is neither an infinity nor an
    \<open>OverflowError\<close>. The pair scan of \<open>fcp\<close> only compares ratings and counts with
    integers, so its statements are not affected; of \<open>rmse\<close> and \<open>mae\<close> only what
    does not rest on the arithmetic is stated;
  \<^item> an exception is a value of \<open>error\<close>, and every function returns \<open>error + real\<close>;
  \<^item> a \<open>defaultdict\<close> is an association list in insertion order: a key is created,
    with the default value, the first time it is written through;
  \<^item> the optional \<open>print\<close> of the result (parameter \<open>output\<close>) does not change the
    returned value or raise, and is left out.
\<close>

subsection \<open>Data model and errors\<close>

type_synonym ('u, 'i, 'd) prediction = "'u \<times> 'i \<times> real \<times> real \<times> 'd"

datatype error =
    ValueError string
  | StatisticsError string
  | ZeroDivisionError string

definition empty_msg :: string where
  "empty_msg = ''prediction list is empty''"

definition degenerate_msg :: string where
  "degenerate_msg =
     ''cannot compute fcp on this list of prediction. '' @
     ''Does every user have at least two predictions?''"

subsection \<open>Library functions the module calls\<close>

text \<open>
  \<open>statistics.mean\<close>: the sum of the data divided by their number; it raises
  \<open>StatisticsError\<close> when there is no data point.
\<close>

definition mean :: "real list \<Rightarrow> error + real" where
  "mean data =
     (let n = length data; total = sum_list data
      in if n < 1 then Inl (StatisticsError ''mean requires at least one data point'')
         else Inr (total / real n))"

text \<open>\<open>math.sqrt\<close> raises \<open>ValueError\<close> on a negative argument.\<close>

definition py_sqrt :: "real \<Rightarrow> error + real" where
  "py_sqrt x = (if x < 0 then Inl (ValueError ''math domain error'') else Inr (sqrt x))"

text \<open>The division \<open>a / b\<close> raises \<open>ZeroDivisionError\<close> when \<open>b\<close> is zero.\<close>

definition truediv :: "real \<Rightarrow> real \<Rightarrow> error + real" where
  "truediv a b = (if b = 0 then Inl (ZeroDivisionError ''division by zero'') else Inr (a / b))"

text \<open>
  \<open>d[k] = f(d[k])\<close> on a \<open>defaultdict\<close> with default value \<open>dflt\<close>: an existing key keeps
  its place and gets the new value, a new key is appended holding \<open>f dflt\<close>.
\<close>

fun dd_update :: "'v \<Rightarrow> ('v \<Rightarrow> 'v) \<Rightarrow> 'k \<Rightarrow> ('k \<times> 'v) list \<Rightarrow> ('k \<times> 'v) list" where
  "dd_update dflt f k [] = [(k, f dflt)]"
| "dd_update dflt f k ((k', v) # kvs) =
     (if k' = k then (k', f v) # kvs else (k', v) # dd_update dflt f k kvs)"

text \<open>\<open>d.values()\<close>, in insertion order.\<close>

definition dd_values :: "('k \<times> 'v) list \<Rightarrow> 'v list" where
  "dd_values d = map snd d"

subsection \<open>\<open>rmse\<close> and \<open>mae\<close>\<close>

text \<open>
  The source wraps each term in \<open>float(...)\<close> before \<open>mean\<close> sees it. Over the reals
  that conversion changes nothing and is not written; the two definitions give the
  exact-arithmetic value of each function and its empty-input error, not the double
  the interpreter returns nor its \<open>OverflowError\<close>.
\<close>

definition rmse :: "('u, 'i, 'd) prediction list \<Rightarrow> error + real" where
  "rmse predictions =
     (if predictions = [] then Inl (ValueError empty_msg)
      else case mean (map (\<lambda>(_, _, true_r, est, _). (true_r - est)\<^sup>2) predictions) of
             Inl e \<Rightarrow> Inl e
           | Inr mse \<Rightarrow> py_sqrt mse)"

definition mae :: "('u, 'i, 'd) prediction list \<Rightarrow> error + real" where
  "mae predictions =
     (if predictions = [] then Inl (ValueError empty_msg)
      else mean (map (\<lambda>(_, _, true_r, est, _). \<bar>true_r - est\<bar>) predictions))"

subsection \<open>\<open>fcp\<close>\<close>

text \<open>
  The first loop: \<open>predictions_u[u0].append((r0, est))\<close> for every record, in order.
\<close>

definition group_by_user ::
  "('u, 'i, 'd) prediction list \<Rightarrow> ('u \<times> (real \<times> real) list) list" where
  "group_by_user predictions =
     fold (\<lambda>(u0, _, r0, est, _) predictions_u.
             dd_update [] (\<lambda>l. l @ [(r0, est)]) u0 predictions_u)
          predictions []"

text \<open>\<open>c[u0] += 1\<close> on a \<open>defaultdict(int)\<close>.\<close>

definition incr :: "'u \<Rightarrow> ('u \<times> int) list \<Rightarrow> ('u \<times> int) list" where
  "incr u0 c = dd_update 0 (\<lambda>n. n + 1) u0 c"

text \<open>
  The body of the innermost loop, on the state \<open>(nc_u, nd_u)\<close>: the two \<open>if\<close>
  statements, one after the other.
\<close>

definition pair_step ::
  "'u \<Rightarrow> real \<times> real \<Rightarrow> real \<times> real \<Rightarrow>
   ('u \<times> int) list \<times> ('u \<times> int) list \<Rightarrow> ('u \<times> int) list \<times> ('u \<times> int) list" where
  "pair_step u0 p_i p_j s =
     (case (p_i, p_j, s) of ((r0i, esti), (r0j, estj), (nc_u, nd_u)) \<Rightarrow>
        let nc_u' = (if esti > estj \<and> r0i > r0j then incr u0 nc_u else nc_u);
            nd_u' = (if esti \<ge> estj \<and> r0i < r0j then incr u0 nd_u else nd_u)
        in (nc_u', nd_u'))"

text \<open>The two loops over one user's list \<open>preds\<close>.\<close>

definition user_scan ::
  "'u \<Rightarrow> (real \<times> real) list \<Rightarrow>
   ('u \<times> int) list \<times> ('u \<times> int) list \<Rightarrow> ('u \<times> int) list \<times> ('u \<times> int) list" where
  "user_scan u0 preds s = fold (\<lambda>p_i. fold (\<lambda>p_j. pair_step u0 p_i p_j) preds) preds s"

text \<open>The loop over \<open>predictions_u.items()\<close>, from empty counters.\<close>

definition count_pairs ::
  "('u \<times> (real \<times> real) list) list \<Rightarrow> ('u \<times> int) list \<times> ('u \<times> int) list" where
  "count_pairs predictions_u =
     fold (\<lambda>(u0, preds). user_scan u0 preds) predictions_u ([], [])"

text \<open>\<open>mean(c.values()) if c else 0\<close>.\<close>

definition mean_or_zero :: "('u \<times> int) list \<Rightarrow> error + real" where
  "mean_or_zero c = (if c \<noteq> [] then mean (map real_of_int (dd_values c)) else Inr 0)"

text \<open>
  The values \<open>nc\<close> and \<open>nd\<close> of a non-empty list, when neither \<open>mean\<close> raises.
\<close>

definition nc_nd :: "('u, 'i, 'd) prediction list \<Rightarrow> error + (real \<times> real)" where
  "nc_nd predictions =
     (case count_pairs (group_by_user predictions) of (nc_u, nd_u) \<Rightarrow>
        (case mean_or_zero nc_u of
           Inl e \<Rightarrow> Inl e
         | Inr nc \<Rightarrow>
             (case mean_or_zero nd_u of
                Inl e \<Rightarrow> Inl e
              | Inr nd \<Rightarrow> Inr (nc, nd))))"

text \<open>
  \<open>fcp\<close>: the \<open>try\<close> turns a \<open>ZeroDivisionError\<close> of the division into a
  \<open>ValueError\<close>; any other error passes through.
\<close>

definition fcp :: "('u, 'i, 'd) prediction list \<Rightarrow> error + real" where
  "fcp predictions =
     (if predictions = [] then Inl (ValueError empty_msg)
      else case nc_nd predictions of
             Inl e \<Rightarrow> Inl e
           | Inr (nc, nd) \<Rightarrow>
               (case truediv nc (nc + nd) of
                  Inl (ZeroDivisionError _) \<Rightarrow> Inl (ValueError degenerate_msg)
                | Inl e \<Rightarrow> Inl e
                | Inr v \<Rightarrow> Inr v))"

subsection \<open>Vocabulary of the statements\<close>

text \<open>The fields of a prediction record.\<close>

definition user_of :: "('u, 'i, 'd) prediction \<Rightarrow> 'u" where
  "user_of p = (case p of (u, _, _, _, _) \<Rightarrow> u)"

definition true_rating :: "('u, 'i, 'd) prediction \<Rightarrow> real" where
  "true_rating p = (case p of (_, _, r, _, _) \<Rightarrow> r)"

definition estimated_rating :: "('u, 'i, 'd) prediction \<Rightarrow> real" where
  "estimated_rating p = (case p of (_, _, _, e, _) \<Rightarrow> e)"

text \<open>
  Reading \<open>d[k]\<close> from a \<open>defaultdict\<close> whose default value is \<open>dflt\<close>, taken as a
  value only (a key that is absent reads as the default).
\<close>

definition dd_get :: "'v \<Rightarrow> ('k \<times> 'v) list \<Rightarrow> 'k \<Rightarrow> 'v" where
  "dd_get dflt d k = (case map_of d k of None \<Rightarrow> dflt | Some v \<Rightarrow> v)"

text \<open>
  The two conditions of the pair scan, on pairs \<open>(true rating, estimate)\<close> as
  \<open>predictions_u\<close> stores them.
\<close>

definition concordant :: "real \<times> real \<Rightarrow> real \<times> real \<Rightarrow> bool" where
  "concordant p_i p_j =
     (case (p_i, p_j) of ((r0i, esti), (r0j, estj)) \<Rightarrow> esti > estj \<and> r0i > r0j)"

definition discordant :: "real \<times> real \<Rightarrow> real \<times> real \<Rightarrow> bool" where
  "discordant p_i p_j =
     (case (p_i, p_j) of ((r0i, esti), (r0j, estj)) \<Rightarrow> esti \<ge> estj \<and> r0i < r0j)"

text \<open>The predictions of one user, in the order of the input.\<close>

definition user_preds :: "'u \<Rightarrow> ('u, 'i, 'd) prediction list \<Rightarrow> (real \<times> real) list" where
  "user_preds u predictions =
     map (\<lambda>p. (true_rating p, estimated_rating p)) (filter (\<lambda>p. user_of p = u) predictions)"

text \<open>
  The number of ordered pairs of positions \<open>(i, j)\<close> of a list, a position paired with
  itself included and \<open>(i, j)\<close> apart from \<open>(j, i)\<close>, whose elements satisfy \<open>P\<close>.
\<close>

definition pair_count :: "('a \<Rightarrow> 'a \<Rightarrow> bool) \<Rightarrow> 'a list \<Rightarrow> nat" where
  "pair_count P ps =
     length (filter (\<lambda>(i, j). P (ps ! i) (ps ! j))
                    (List.product [0..<length ps] [0..<length ps]))"

text \<open>
  One counter of the pair scan taken alone: the scan of one user's list, and the loop
  over all users, for a condition \<open>P\<close>.
\<close>

definition scan_one ::
  "(real \<times> real \<Rightarrow> real \<times> real \<Rightarrow> bool) \<Rightarrow> 'u \<Rightarrow> (real \<times> real) list \<Rightarrow>
   (real \<times> real) list \<Rightarrow> ('u \<times> int) list \<Rightarrow> ('u \<times> int) list" where
  "scan_one P u0 preds qs c =
     fold (\<lambda>p_i. fold (\<lambda>p_j c'. if P p_i p_j then incr u0 c' else c') preds) qs c"

definition count_one ::
  "(real \<times> real \<Rightarrow> real \<times> real \<Rightarrow> bool) \<Rightarrow> ('u \<times> (real \<times> real) list) list \<Rightarrow>
   ('u \<times> int) list \<Rightarrow> ('u \<times> int) list" where
  "count_one P predictions_u c = fold (\<lambda>(u0, preds). scan_one P u0 preds preds) predictions_u c"

text \<open>A counter dictionary as the scan builds it: no key twice, no value below one.\<close>

definition counter_ok :: "('u \<times> int) list \<Rightarrow> bool" where
  "counter_ok c = (distinct (map fst c) \<and> list_all (\<lambda>v. 0 < v) (map snd c))"

text \<open>The scenario of the specification, with users and items numbered.\<close>

definition scenario :: "(nat, nat, unit) prediction list" where
  "scenario = [(1, 1, 3.0, 2.5, ()), (1, 2, 4.0, 3.8, ()), (2, 1, 2.0, 2.0, ()), (2, 2, 5.0, 4.9, ())]"

text \<open>The value of \<open>mean(c.values()) if c else 0\<close> for a counter dictionary \<open>c\<close>.\<close>

definition mean_value :: "('u \<times> int) list \<Rightarrow> real" where
  "mean_value c = (if c = [] then 0 else (\<Sum>v\<leftarrow>map snd c. real_of_int v) / real (length c))"

text \<open>
  The reading of the specification, to be compared with \<open>fcp\<close>: \<open>nc\<close> and \<open>nd\<close> are the
  arithmetic means, over all users present in the input, of the users' concordant and
  discordant counts (a user without such a pair counts as zero), and the result is
  \<open>nc / (nc + nd)\<close>.
\<close>

definition fcp_all_users :: "('u, 'i, 'd) prediction list \<Rightarrow> error + real" where
  "fcp_all_users predictions =
     (if predictions = [] then Inl (ValueError empty_msg)
      else
        let users = remdups (map user_of predictions);
            nc = (\<Sum>u\<leftarrow>users. real (pair_count concordant (user_preds u predictions)))
                   / real (length users);
            nd = (\<Sum>u\<leftarrow>users. real (pair_count discordant (user_preds u predictions)))
                   / real (length users)
        in if nc + nd = 0 then Inl (ValueError degenerate_msg) else Inr (nc / (nc + nd)))"

text \<open>
  Two users: user 1 has one concordant pair and no discordant one, user 2 has one
  concordant pair and two discordant ones.
\<close>

definition skewed :: "(nat, nat, unit) prediction list" where
  "skewed = [(1, 1, 1, 1, ()), (1, 2, 2, 2, ()),
             (2, 1, 1, 2, ()), (2, 2, 2, 3, ()), (2, 3, 3, 1, ())]"

text \<open>One user whose estimates invert the true ranking (a scenario of the specification).\<close>

definition inverted :: "(nat, nat, unit) prediction list" where
  "inverted = [(1, 1, 1, 4, ()), (1, 2, 2, 3, ()), (1, 3, 3, 2, ()), (1, 4, 4, 1, ())]"

text \<open>Two users with one prediction each.\<close>

definition singles :: "(nat, nat, unit) prediction list" where
  "singles = [(1, 1, 3, 2, ()), (2, 1, 4, 1, ())]"

section \<open>Empty input\<close>

text \<open>
  C5: on the empty prediction list each of \<open>rmse\<close>, \<open>mae\<close> and \<open>fcp\<close> raises the
  \<open>ValueError\<close> for empty input; the emptiness test is the first thing each function
  does, and no value is returned.
\<close>

theorem empty_input_raises:
  "rmse ([] :: ('u, 'i, 'd) prediction list) = Inl (ValueError empty_msg) \<and>
   mae ([] :: ('u, 'i, 'd) prediction list) = Inl (ValueError empty_msg) \<and>
   fcp ([] :: ('u, 'i, 'd) prediction list) = Inl (ValueError empty_msg)"
  by (simp add: rmse_def mae_def fcp_def)

section \<open>RMSE and MAE\<close>

text \<open>
  What \<open>rmse\<close> and \<open>mae\<close> return on an arbitrary non-empty list, and how the two values
  compare, depends on the floating-point arithmetic of the subtraction, the power, the
  conversion \<open>float\<close>, the division that ends \<open>statistics.mean\<close> and \<open>math.sqrt\<close>
  (rounding, underflow, overflow to infinity or to an \<open>OverflowError\<close>). The definitions
  above compute with exact reals, so no statement of that kind is made here. The
  statements below do not depend on it: the value on the scenario of the specification
  is stated to a precision far coarser than the rounding of doubles.
\<close>

lemma mean_nonempty: "xs \<noteq> [] \<Longrightarrow> mean xs = Inr (sum_list xs / real (length xs))"
  by (cases xs) (simp_all add: mean_def Let_def)

subsection \<open>The scenario of the specification\<close>

lemma sqrt_3_40_lower: "0.27385 < sqrt (3/40)"
  by (rule real_less_rsqrt) (simp add: power2_eq_square)

lemma sqrt_3_40_upper: "sqrt (3/40) < 0.27395"
  by (rule real_less_lsqrt) (simp_all add: power2_eq_square)

lemma rmse_scenario: "rmse scenario = Inr (sqrt (3/40))"
  by (simp add: rmse_def scenario_def mean_def py_sqrt_def power2_eq_square)

lemma mae_scenario: "mae scenario = Inr (1/5)"
  by (simp add: mae_def scenario_def mean_def)

text \<open>
  C8, as stated, fails: on the scenario list \<open>rmse\<close> returns the square root of
  \<open>3/40\<close> (the squared errors are 0.25, 0.04, 0 and 0.01, their mean 0.075), which is
  more than 0.018 away from 0.2550.
\<close>

theorem scenario_rmse_not_0255:
  "rmse scenario = Inr (sqrt (3/40)) \<and> \<bar>sqrt (3/40) - 0.2550\<bar> > 0.018"
proof -
  have "\<bar>sqrt (3/40) - 0.2550\<bar> > 0.018"
    using sqrt_3_40_lower by simp
  then show ?thesis
    using rmse_scenario by blast
qed

text \<open>
  C8, amended: on the scenario list \<open>rmse\<close> returns the square root of \<open>3/40\<close>, which is
  0.2739 to four decimal places, and \<open>mae\<close> returns 0.2.
\<close>

theorem scenario_values:
  "rmse scenario = Inr (sqrt (3/40)) \<and> \<bar>sqrt (3/40) - 0.2739\<bar> < 0.00005 \<and>
   mae scenario = Inr 0.2"
proof -
  have "\<bar>sqrt (3/40) - 0.2739\<bar> < 0.00005"
  proof -
    have "sqrt (3/40) - 0.2739 < 0.00005"
      using sqrt_3_40_upper by simp
    moreover have "- (sqrt (3/40) - 0.2739) < 0.00005"
      using sqrt_3_40_lower by simp
    ultimately show ?thesis
      by (rule abs_less_iff [THEN iffD2, OF conjI])
  qed
  moreover have "mae scenario = Inr 0.2"
    using mae_scenario by simp
  ultimately show ?thesis
    using rmse_scenario by blast
qed

section \<open>FCP\<close>

subsection \<open>Writing through a \<open>defaultdict\<close>\<close>

lemma dd_get_update:
  "dd_get d (dd_update d f k kvs) = (dd_get d kvs)(k := f (dd_get d kvs k))"
  by (induction kvs) (auto simp: dd_get_def fun_eq_iff)

lemma keys_dd_update:
  "fst ` set (dd_update d f k kvs) = insert k (fst ` set kvs)"
proof (induction kvs)
  case Nil
  show ?case by simp
next
  case (Cons x kvs)
  obtain k' v where x: "x = (k', v)" by (cases x)
  show ?case
  proof (cases "k' = k")
    case True
    then show ?thesis by (simp add: x insert_absorb2)
  next
    case False
    then show ?thesis using Cons by (simp add: x insert_commute)
  qed
qed

lemma distinct_dd_update:
  "distinct (map fst kvs) \<Longrightarrow> distinct (map fst (dd_update d f k kvs))"
  by (induction kvs) (auto simp: keys_dd_update)

lemma distinct_incr: "distinct (map fst c) \<Longrightarrow> distinct (map fst (incr u c))"
  by (simp add: incr_def distinct_dd_update)

lemma values_incr:
  "list_all (\<lambda>v. 0 < v) (map snd c) \<Longrightarrow> list_all (\<lambda>v. 0 < v) (map snd (incr u c))"
  unfolding incr_def by (induction c) auto

lemma counter_ok_incr: "counter_ok c \<Longrightarrow> counter_ok (incr u c)"
  by (simp add: counter_ok_def values_incr distinct_incr)

lemma dd_get_incr: "dd_get 0 (incr u c) = (dd_get 0 c)(u := dd_get 0 c u + 1)"
  by (simp add: incr_def dd_get_update)

subsection \<open>The two counters evolve independently\<close>

lemma pair_step_split:
  "pair_step u a b (nc, nd) =
   ((if concordant a b then incr u nc else nc), (if discordant a b then incr u nd else nd))"
  by (cases a; cases b) (simp add: pair_step_def concordant_def discordant_def)

lemma inner_split:
  "fold (\<lambda>p_j. pair_step u a p_j) ps (nc, nd) =
   (fold (\<lambda>p_j c. if concordant a p_j then incr u c else c) ps nc,
    fold (\<lambda>p_j c. if discordant a p_j then incr u c else c) ps nd)"
  by (induction ps arbitrary: nc nd) (simp_all add: pair_step_split)

lemma outer_split:
  "fold (\<lambda>p_i. fold (\<lambda>p_j. pair_step u p_i p_j) ps) qs (nc, nd) =
   (scan_one concordant u ps qs nc, scan_one discordant u ps qs nd)"
  by (induction qs arbitrary: nc nd) (simp_all add: scan_one_def inner_split)

lemma user_scan_split:
  "user_scan u ps (nc, nd) = (scan_one concordant u ps ps nc, scan_one discordant u ps ps nd)"
  by (simp add: user_scan_def outer_split)

lemma users_split:
  "fold (\<lambda>(u0, preds). user_scan u0 preds) pu (nc, nd) =
   (count_one concordant pu nc, count_one discordant pu nd)"
  by (induction pu arbitrary: nc nd) (auto simp: count_one_def user_scan_split)

lemma count_pairs_split:
  "count_pairs pu = (count_one concordant pu [], count_one discordant pu [])"
  by (simp add: count_pairs_def users_split)

subsection \<open>One counter through the three loops\<close>

lemma inner_ok:
  "counter_ok c \<Longrightarrow> counter_ok (fold (\<lambda>p_j c'. if P a p_j then incr u c' else c') ps c)"
  by (induction ps arbitrary: c) (simp_all add: counter_ok_incr)

lemma inner_get:
  "dd_get 0 (fold (\<lambda>p_j c'. if P a p_j then incr u c' else c') ps c) =
   (dd_get 0 c)(u := dd_get 0 c u + (\<Sum>b\<leftarrow>ps. if P a b then 1 else 0))"
  by (induction ps arbitrary: c) (auto simp: dd_get_incr fun_eq_iff)

lemma scan_one_ok: "counter_ok c \<Longrightarrow> counter_ok (scan_one P u ps qs c)"
  unfolding scan_one_def by (induction qs arbitrary: c) (simp_all add: inner_ok)

lemma scan_one_get:
  "dd_get 0 (scan_one P u ps qs c) =
   (dd_get 0 c)(u := dd_get 0 c u + (\<Sum>a\<leftarrow>qs. \<Sum>b\<leftarrow>ps. if P a b then 1 else 0))"
  unfolding scan_one_def by (induction qs arbitrary: c) (auto simp: inner_get fun_eq_iff)

lemma count_one_ok: "counter_ok c \<Longrightarrow> counter_ok (count_one P pu c)"
  unfolding count_one_def by (induction pu arbitrary: c) (auto simp: scan_one_ok)

lemma count_one_get:
  "dd_get 0 (count_one P pu c) v =
   dd_get 0 c v + (\<Sum>(u, ps)\<leftarrow>pu. if u = v then (\<Sum>a\<leftarrow>ps. \<Sum>b\<leftarrow>ps. if P a b then 1 else 0) else 0)"
  unfolding count_one_def by (induction pu arbitrary: c) (auto simp: scan_one_get)

lemma sum_absent_key:
  "v \<notin> fst ` set pu \<Longrightarrow> (\<Sum>(u, ps)\<leftarrow>pu. if u = v then f ps else (0::int)) = 0"
  by (induction pu) auto

lemma sum_at_key:
  "distinct (map fst pu) \<Longrightarrow> f [] = (0::int) \<Longrightarrow>
   (\<Sum>(u, ps)\<leftarrow>pu. if u = v then f ps else 0) = f (dd_get [] pu v)"
proof (induction pu)
  case Nil
  then show ?case by (simp add: dd_get_def)
next
  case (Cons x pu)
  obtain u ps where x: "x = (u, ps)" by (cases x)
  show ?case
  proof (cases "u = v")
    case True
    then have "v \<notin> fst ` set pu" using Cons.prems x by auto
    then have "(\<Sum>(u, ps)\<leftarrow>pu. if u = v then f ps else 0) = 0"
      by (rule sum_absent_key)
    then show ?thesis using True x by (simp add: dd_get_def)
  next
    case False
    then show ?thesis using Cons x by (simp add: dd_get_def)
  qed
qed

subsection \<open>Grouping by user\<close>

lemma group_fold_distinct:
  "distinct (map fst acc) \<Longrightarrow>
   distinct (map fst (fold (\<lambda>(u0, _, r0, est, _) predictions_u.
             dd_update [] (\<lambda>l. l @ [(r0, est)]) u0 predictions_u) preds acc))"
  by (induction preds arbitrary: acc) (auto simp: distinct_dd_update)

lemma group_fold_get:
  "dd_get [] (fold (\<lambda>(u0, _, r0, est, _) predictions_u.
             dd_update [] (\<lambda>l. l @ [(r0, est)]) u0 predictions_u) preds acc) u =
   dd_get [] acc u @ user_preds u preds"
  by (induction preds arbitrary: acc)
     (auto simp: dd_get_update user_preds_def user_of_def true_rating_def estimated_rating_def)

lemma distinct_group_by_user: "distinct (map fst (group_by_user predictions))"
  unfolding group_by_user_def by (rule group_fold_distinct) simp

lemma dd_get_group_by_user: "dd_get [] (group_by_user predictions) u = user_preds u predictions"
  unfolding group_by_user_def by (simp add: group_fold_get) (simp add: dd_get_def)

subsection \<open>Pair counts as double sums\<close>

lemma filter_Pair:
  "filter (\<lambda>(i, j). Q i j) (map (Pair x) ys) = map (Pair x) (filter (Q x) ys)"
  by (induction ys) auto

lemma length_filter_product:
  "length (filter (\<lambda>(i, j). Q i j) (List.product xs ys)) = (\<Sum>i\<leftarrow>xs. length (filter (Q i) ys))"
  by (induction xs) (simp_all add: filter_Pair)

lemma int_length_filter:
  "int (length (filter Q ys)) = (\<Sum>b\<leftarrow>ys. if Q b then 1 else 0)"
  by (induction ys) simp_all

lemma sum_list_nth_map:
  "(\<Sum>i\<leftarrow>[0..<length ps]. g (ps ! i)) = (\<Sum>a\<leftarrow>ps. (g a :: int))"
proof -
  have "map (\<lambda>i. g (ps ! i)) [0..<length ps] = map g (map ((!) ps) [0..<length ps])"
    by simp
  also have "\<dots> = map g ps"
    by (simp only: map_nth)
  finally show ?thesis by simp
qed

lemma pair_count_sum:
  "int (pair_count P ps) = (\<Sum>a\<leftarrow>ps. \<Sum>b\<leftarrow>ps. if P a b then 1 else 0)"
proof -
  let ?n = "length ps"
  have "int (pair_count P ps) =
        int (\<Sum>i\<leftarrow>[0..<?n]. length (filter (\<lambda>j. P (ps ! i) (ps ! j)) [0..<?n]))"
    unfolding pair_count_def by (simp only: length_filter_product)
  also have "\<dots> = (\<Sum>i\<leftarrow>[0..<?n]. int (length (filter (\<lambda>j. P (ps ! i) (ps ! j)) [0..<?n])))"
    by (simp add: sum_list_of_nat [where 'a = int, symmetric] comp_def)
  also have "\<dots> = (\<Sum>i\<leftarrow>[0..<?n]. \<Sum>j\<leftarrow>[0..<?n]. if P (ps ! i) (ps ! j) then 1 else 0)"
    by (simp only: int_length_filter)
  also have "\<dots> = (\<Sum>i\<leftarrow>[0..<?n]. \<Sum>b\<leftarrow>ps. if P (ps ! i) b then 1 else 0)"
    by (simp only: sum_list_nth_map [of "\<lambda>b. if P (ps ! i) b then 1 else 0" for i])
  also have "\<dots> = (\<Sum>a\<leftarrow>ps. \<Sum>b\<leftarrow>ps. if P a b then 1 else 0)"
    by (rule sum_list_nth_map [of "\<lambda>a. \<Sum>b\<leftarrow>ps. if P a b then 1 else 0"])
  finally show ?thesis .
qed

lemma pair_count_Nil: "pair_count P [] = 0"
  by (simp add: pair_count_def)

lemma pair_count_zero_iff:
  "pair_count P ps = 0 \<longleftrightarrow> (\<forall>a\<in>set ps. \<forall>b\<in>set ps. \<not> P a b)"
proof -
  have "pair_count P ps = 0 \<longleftrightarrow> (\<forall>i<length ps. \<forall>j<length ps. \<not> P (ps ! i) (ps ! j))"
    by (auto simp: pair_count_def filter_empty_conv)
  also have "\<dots> \<longleftrightarrow> (\<forall>a\<in>set ps. \<forall>b\<in>set ps. \<not> P a b)"
    by (metis in_set_conv_nth)
  finally show ?thesis .
qed

subsection \<open>What the scan leaves in the counters\<close>

lemma counter_ok_Nil: "counter_ok []"
  by (simp add: counter_ok_def)

lemma dd_get_Nil: "dd_get d [] k = d"
  by (simp add: dd_get_def)

lemma count_one_group_get:
  "dd_get 0 (count_one P (group_by_user predictions) []) u =
   int (pair_count P (user_preds u predictions))"
proof -
  let ?f = "\<lambda>ps. \<Sum>a\<leftarrow>ps. \<Sum>b\<leftarrow>ps. if P a b then (1::int) else 0"
  have "dd_get 0 (count_one P (group_by_user predictions) []) u =
        (\<Sum>(u', ps)\<leftarrow>group_by_user predictions. if u' = u then ?f ps else 0)"
    by (simp add: count_one_get dd_get_Nil)
  also have "\<dots> = ?f (dd_get [] (group_by_user predictions) u)"
    by (rule sum_at_key [OF distinct_group_by_user]) simp
  also have "\<dots> = int (pair_count P (user_preds u predictions))"
    by (simp only: dd_get_group_by_user pair_count_sum)
  finally show ?thesis .
qed

lemma count_one_group_ok: "counter_ok (count_one P (group_by_user predictions) [])"
  by (rule count_one_ok [OF counter_ok_Nil])

text \<open>
  C4: the body of the innermost loop increments the user's concordant counter exactly
  when \<open>est_i > est_j\<close> and \<open>true_i > true_j\<close>, and the user's discordant counter exactly
  when \<open>est_i \<ge> est_j\<close> and \<open>true_i < true_j\<close>; the list scanned for a user holds that
  user's predictions; and after the scan each counter of a user, read with the default
  0, is the number of ordered pairs of positions \<open>(i, j)\<close> of that list (with \<open>i = j\<close>,
  and with both \<open>(i, j)\<close> and \<open>(j, i)\<close>) that satisfy the counter's condition.
\<close>

theorem pair_scan_counts:
  "pair_step u0 p_i p_j (nc_u, nd_u) =
     ((if concordant p_i p_j then incr u0 nc_u else nc_u),
      (if discordant p_i p_j then incr u0 nd_u else nd_u)) \<and>
   dd_get [] (group_by_user predictions) u = user_preds u predictions \<and>
   dd_get 0 (fst (count_pairs (group_by_user predictions))) u =
     int (pair_count concordant (user_preds u predictions)) \<and>
   dd_get 0 (snd (count_pairs (group_by_user predictions))) u =
     int (pair_count discordant (user_preds u predictions))"
  by (simp add: pair_step_split dd_get_group_by_user count_pairs_split count_one_group_get)

subsection \<open>A counter dictionary is determined by its readings\<close>

lemma counter_ok_mem:
  assumes "counter_ok c"
  shows "(u, v) \<in> set c \<longleftrightarrow> dd_get 0 c u = v \<and> v \<noteq> 0"
proof
  assume m: "(u, v) \<in> set c"
  have "map_of c u = Some v"
    using assms m by (simp add: counter_ok_def)
  moreover have "0 < v"
    using assms m by (force simp: counter_ok_def list_all_iff)
  ultimately show "dd_get 0 c u = v \<and> v \<noteq> 0"
    by (simp add: dd_get_def)
next
  assume "dd_get 0 c u = v \<and> v \<noteq> 0"
  then have "map_of c u = Some v"
    by (auto simp: dd_get_def split: option.splits)
  then show "(u, v) \<in> set c"
    by (rule map_of_SomeD)
qed

lemma counter_ok_Nil_iff:
  assumes "counter_ok c"
  shows "c = [] \<longleftrightarrow> (\<forall>u. dd_get 0 c u = 0)"
proof
  assume "c = []"
  then show "\<forall>u. dd_get 0 c u = 0" by (simp add: dd_get_Nil)
next
  assume z: "\<forall>u. dd_get 0 c u = 0"
  show "c = []"
  proof (cases c)
    case Nil
    then show ?thesis .
  next
    case (Cons x xs)
    obtain u v where x: "x = (u, v)" by (cases x)
    have "(u, v) \<in> set c" using Cons x by simp
    then have "dd_get 0 c u = v \<and> v \<noteq> 0"
      using counter_ok_mem [OF assms] by blast
    then show ?thesis using z by simp
  qed
qed


lemma mean_or_zero_eq: "mean_or_zero c = Inr (mean_value c)"
  by (simp add: mean_or_zero_def mean_value_def mean_nonempty dd_values_def)


lemma mean_value_nonneg:
  assumes "counter_ok c"
  shows "0 \<le> mean_value c"
proof -
  have "\<forall>v\<in>set (map snd c). 0 < v"
    using assms by (simp add: counter_ok_def list_all_iff)
  then have "0 \<le> (\<Sum>v\<leftarrow>map snd c. real_of_int v)"
    by (intro sum_list_nonneg) auto
  then show ?thesis by (simp add: mean_value_def)
qed

lemma mean_value_zero_iff:
  assumes "counter_ok c"
  shows "mean_value c = 0 \<longleftrightarrow> c = []"
proof (cases c)
  case Nil
  then show ?thesis by (simp add: mean_value_def)
next
  case (Cons x xs)
  have pos: "\<forall>v\<in>set (map snd c). 0 < v"
    using assms by (simp add: counter_ok_def list_all_iff)
  have "0 \<le> (\<Sum>v\<leftarrow>map snd xs. real_of_int v)"
    using pos Cons by (intro sum_list_nonneg) auto
  moreover have "0 < real_of_int (snd x)"
    using pos Cons by simp
  ultimately have "0 < (\<Sum>v\<leftarrow>map snd c. real_of_int v)"
    using Cons by simp
  then have "0 < mean_value c"
    using Cons by (simp add: mean_value_def)
  then show ?thesis using Cons by simp
qed

subsection \<open>Evaluating \<open>fcp\<close> on concrete lists\<close>

lemmas fcp_eval =
  fcp_def nc_nd_def count_pairs_def group_by_user_def user_scan_def pair_step_def incr_def
  mean_or_zero_def mean_def dd_values_def truediv_def

lemma fcp_skewed: "fcp skewed = Inr (1/3)"
  by (simp add: skewed_def fcp_eval)

lemma upt_3: "[0..<3] = [0, 1, 2]" "[0..<2] = [0, 1]"
  by (simp_all add: upt_rec)

lemma fcp_all_users_skewed: "fcp_all_users skewed = Inr (1/2)"
  by (simp add: skewed_def fcp_all_users_def user_preds_def user_of_def true_rating_def
      estimated_rating_def pair_count_def concordant_def discordant_def upt_3 Let_def)

subsection \<open>The result of \<open>fcp\<close> from the two means\<close>

lemma nc_nd_eq:
  "nc_nd predictions =
   Inr (mean_value (count_one concordant (group_by_user predictions) []),
        mean_value (count_one discordant (group_by_user predictions) []))"
  by (simp add: nc_nd_def count_pairs_split mean_or_zero_eq)

lemma fcp_of_nc_nd:
  assumes "predictions \<noteq> []" "nc_nd predictions = Inr (nc, nd)"
  shows "fcp predictions =
         (if nc + nd = 0 then Inl (ValueError degenerate_msg) else Inr (nc / (nc + nd)))"
  using assms by (simp add: fcp_def truediv_def)

lemma mean_value_counter_zero_iff:
  "mean_value (count_one P (group_by_user predictions) []) = 0 \<longleftrightarrow>
   (\<forall>u. pair_count P (user_preds u predictions) = 0)"
proof -
  let ?c = "count_one P (group_by_user predictions) []"
  have ok: "counter_ok ?c" by (rule count_one_group_ok)
  have "mean_value ?c = 0 \<longleftrightarrow> ?c = []"
    by (rule mean_value_zero_iff [OF ok])
  also have "\<dots> \<longleftrightarrow> (\<forall>u. dd_get 0 ?c u = 0)"
    by (rule counter_ok_Nil_iff [OF ok])
  also have "\<dots> \<longleftrightarrow> (\<forall>u. pair_count P (user_preds u predictions) = 0)"
    by (simp add: count_one_group_get)
  finally show ?thesis .
qed

lemma mean_value_counter_nonneg:
  "0 \<le> mean_value (count_one P (group_by_user predictions) [])"
  by (rule mean_value_nonneg [OF count_one_group_ok])

lemma pair_count_short:
  assumes "length ps \<le> 1" "\<And>a. \<not> P a a"
  shows "pair_count P ps = 0"
proof -
  have "a = b" if "a \<in> set ps" "b \<in> set ps" for a b
    using that assms(1) by (cases ps) auto
  then show ?thesis
    using assms(2) by (auto simp: pair_count_zero_iff)
qed

lemma not_concordant_self: "\<not> concordant a a"
  by (cases a) (simp add: concordant_def)

lemma not_discordant_self: "\<not> discordant a a"
  by (cases a) (simp add: discordant_def)

lemma user_preds_absent:
  "u \<notin> user_of ` set predictions \<Longrightarrow> user_preds u predictions = []"
  by (auto simp: user_preds_def filter_empty_conv)

lemma single_predictions_short:
  assumes "\<forall>p\<in>set predictions. length (user_preds (user_of p) predictions) = 1"
  shows "length (user_preds u predictions) \<le> 1"
proof (cases "u \<in> user_of ` set predictions")
  case True
  then show ?thesis using assms by auto
next
  case False
  then show ?thesis by (simp add: user_preds_absent)
qed

text \<open>
  C6: on a non-empty list \<open>nc\<close> and \<open>nd\<close> are computed without error, and \<open>fcp\<close> fails
  (with the \<open>ValueError\<close> that asks whether every user has two predictions, and with no
  other error) exactly when \<open>nc + nd = 0\<close>, which is exactly when no ordered pair of any
  user's predictions is concordant or discordant; this is so whenever every user of
  the list has exactly one prediction.
\<close>

theorem fcp_degenerate:
  assumes "predictions \<noteq> []"
  shows "\<exists>nc nd. nc_nd predictions = Inr (nc, nd) \<and>
           ((\<exists>e. fcp predictions = Inl e) \<longleftrightarrow> nc + nd = 0) \<and>
           (fcp predictions = Inl (ValueError degenerate_msg) \<longleftrightarrow> nc + nd = 0) \<and>
           (nc + nd = 0 \<longleftrightarrow>
              (\<forall>u. pair_count concordant (user_preds u predictions) = 0 \<and>
                   pair_count discordant (user_preds u predictions) = 0)) \<and>
           ((\<forall>p\<in>set predictions. length (user_preds (user_of p) predictions) = 1) \<longrightarrow>
              fcp predictions = Inl (ValueError degenerate_msg))"
proof -
  define nc where "nc = mean_value (count_one concordant (group_by_user predictions) [])"
  define nd where "nd = mean_value (count_one discordant (group_by_user predictions) [])"
  have nn: "nc_nd predictions = Inr (nc, nd)"
    by (simp add: nc_nd_eq nc_def nd_def)
  have f: "fcp predictions =
           (if nc + nd = 0 then Inl (ValueError degenerate_msg) else Inr (nc / (nc + nd)))"
    by (rule fcp_of_nc_nd [OF assms nn])
  have nc0: "0 \<le> nc" and nd0: "0 \<le> nd"
    by (simp_all add: nc_def nd_def mean_value_counter_nonneg)
  have "nc + nd = 0 \<longleftrightarrow> nc = 0 \<and> nd = 0"
    using nc0 nd0 by linarith
  then have z: "nc + nd = 0 \<longleftrightarrow>
        (\<forall>u. pair_count concordant (user_preds u predictions) = 0 \<and>
             pair_count discordant (user_preds u predictions) = 0)"
    by (auto simp: nc_def nd_def mean_value_counter_zero_iff)
  have e1: "(\<exists>e. fcp predictions = Inl e) \<longleftrightarrow> nc + nd = 0"
    by (simp add: f)
  have e2: "fcp predictions = Inl (ValueError degenerate_msg) \<longleftrightarrow> nc + nd = 0"
    by (simp add: f)
  have one: "fcp predictions = Inl (ValueError degenerate_msg)"
    if h: "\<forall>p\<in>set predictions. length (user_preds (user_of p) predictions) = 1"
  proof -
    have "pair_count concordant (user_preds u predictions) = 0 \<and>
          pair_count discordant (user_preds u predictions) = 0" for u
      using single_predictions_short [OF h, of u]
      by (simp add: pair_count_short not_concordant_self not_discordant_self)
    then have "nc + nd = 0" using z by blast
    then show ?thesis using e2 by blast
  qed
  show ?thesis
    using nn e1 e2 z one by blast
qed

theorem fcp_degenerate_witness:
  "singles \<noteq> [] \<and> length (user_preds 1 singles) = 1 \<and> length (user_preds 2 singles) = 1 \<and>
   nc_nd singles = Inr (0, 0) \<and> fcp singles = Inl (ValueError degenerate_msg)"
proof -
  have ne: "singles \<noteq> []"
    by (simp add: singles_def)
  have one: "\<forall>p\<in>set singles. length (user_preds (user_of p) singles) = 1"
    by (simp add: singles_def user_preds_def user_of_def)
  have nn: "nc_nd singles = Inr (0, 0)"
    by (simp add: singles_def fcp_eval)
  have "length (user_preds 1 singles) = 1 \<and> length (user_preds 2 singles) = 1"
    by (simp add: singles_def user_preds_def user_of_def)
  then show ?thesis
    using fcp_degenerate [OF ne] ne one nn by blast
qed

text \<open>
  C10: a value that \<open>fcp\<close> returns lies between 0 and 1; it is 0 exactly when no ordered
  pair of any user's predictions is concordant, and 1 exactly when none is discordant.
\<close>

theorem fcp_range:
  assumes "fcp predictions = Inr v"
  shows "0 \<le> v \<and> v \<le> 1 \<and>
         (v = 0 \<longleftrightarrow> (\<forall>u. pair_count concordant (user_preds u predictions) = 0)) \<and>
         (v = 1 \<longleftrightarrow> (\<forall>u. pair_count discordant (user_preds u predictions) = 0))"
proof -
  define nc where "nc = mean_value (count_one concordant (group_by_user predictions) [])"
  define nd where "nd = mean_value (count_one discordant (group_by_user predictions) [])"
  have ne: "predictions \<noteq> []"
    using assms by (auto simp: fcp_def)
  have nn: "nc_nd predictions = Inr (nc, nd)"
    by (simp add: nc_nd_eq nc_def nd_def)
  have f: "fcp predictions =
           (if nc + nd = 0 then Inl (ValueError degenerate_msg) else Inr (nc / (nc + nd)))"
    by (rule fcp_of_nc_nd [OF ne nn])
  have nz: "nc + nd \<noteq> 0" and v: "v = nc / (nc + nd)"
    using assms f by (auto split: if_splits)
  have nc0: "0 \<le> nc" and nd0: "0 \<le> nd"
    by (simp_all add: nc_def nd_def mean_value_counter_nonneg)
  have pos: "0 < nc + nd"
    using nz nc0 nd0 by linarith
  have r0: "0 \<le> v" using nc0 pos by (simp add: v)
  have r1: "v \<le> 1" using nd0 pos by (simp add: v)
  have "v = 0 \<longleftrightarrow> nc = 0" using pos by (simp add: v)
  then have c0: "v = 0 \<longleftrightarrow> (\<forall>u. pair_count concordant (user_preds u predictions) = 0)"
    by (simp add: nc_def mean_value_counter_zero_iff)
  have "v = 1 \<longleftrightarrow> nd = 0" using pos by (simp add: v)
  then have c1: "v = 1 \<longleftrightarrow> (\<forall>u. pair_count discordant (user_preds u predictions) = 0)"
    by (simp add: nd_def mean_value_counter_zero_iff)
  show ?thesis using r0 r1 c0 c1 by blast
qed

lemma fcp_inverted: "fcp inverted = Inr 0"
  by (simp add: inverted_def fcp_eval)

theorem fcp_range_witness:
  "fcp inverted = Inr 0 \<and> (\<forall>u. pair_count concordant (user_preds u inverted) = 0)"
  using fcp_range [OF fcp_inverted] fcp_inverted by simp

subsection \<open>The order of the records\<close>








subsection \<open>Users without a concordant or without a discordant pair\<close>

text \<open>
  A counter dictionary gets a key only when its counter is incremented, so \<open>nc\<close> is the
  mean over the users that have a concordant pair, and \<open>nd\<close> the mean over the users
  that have a discordant pair; the two means may be taken over different sets of users.
\<close>

lemma counters_skewed:
  "count_pairs (group_by_user skewed) = ([(1, 1), (2, 1)], [(2, 2)])"
  by (simp add: skewed_def count_pairs_def group_by_user_def user_scan_def pair_step_def incr_def)

text \<open>
  C1 does not hold of the code: on the list \<open>skewed\<close> user 1 has no discordant pair and
  is left out of the mean \<open>nd\<close>, so \<open>fcp\<close> computes \<open>nc = 1\<close>, \<open>nd = 2\<close> and returns \<open>1/3\<close>,
  where the means over both users are \<open>nc = 1\<close>, \<open>nd = 1\<close> and give \<open>1/2\<close>.
\<close>

theorem fcp_leaves_out_zero_counts:
  "nc_nd skewed = Inr (1, 2) \<and> fcp skewed = Inr (1/3) \<and> fcp_all_users skewed = Inr (1/2)"
proof -
  have "nc_nd skewed = Inr (1, 2)"
    by (simp add: nc_nd_def counters_skewed mean_or_zero_def mean_def dd_values_def)
  then show ?thesis
    using fcp_skewed fcp_all_users_skewed by simp
qed

end
